theory Spec2Isabelle
  imports Main "HOL-Library.Word" "HOL-Library.Monad_Syntax"
begin

unbundle bit_operations_syntax

section \<open>Bytes, strings and checked slice operations\<close>

type_synonym byte = "8 word"
type_synonym uint32 = "32 word"

text \<open>
  A Go string is a sequence of bytes, and so is an Isabelle \<open>string\<close>: \<open>[]byte(s)\<close>
  keeps every byte of \<open>s\<close>.
\<close>

definition bytes_of_string :: "string \<Rightarrow> byte list" where
  "bytes_of_string s = map of_char s"

text \<open>\<open>make([]byte, n)\<close>: \<open>n\<close> zero bytes.\<close>

definition make_bytes :: "nat \<Rightarrow> byte list" where
  "make_bytes n = replicate n 0"

text \<open>
  \<open>a[:n]\<close> and \<open>rv[i] op= v\<close> are bounds-checked in Go: out of range they panic.
  \<open>None\<close> is the panic.
\<close>

definition slice_to :: "byte list \<Rightarrow> nat \<Rightarrow> byte list option" where
  "slice_to a n = (if n \<le> length a then Some (take n a) else None)"

definition index_assign :: "byte list \<Rightarrow> nat \<Rightarrow> (byte \<Rightarrow> byte) \<Rightarrow> byte list option" where
  "index_assign rv i g = (if i < length rv then Some (rv[i := g (rv ! i)]) else None)"

text \<open>
  The builtin \<open>copy(dst, src)\<close> copies \<open>min(len(dst), len(src))\<close> elements and leaves
  the rest of \<open>dst\<close> as it was.
\<close>

definition copy_bytes :: "byte list \<Rightarrow> byte list \<Rightarrow> byte list" where
  "copy_bytes dst src =
     (let n = min (length dst) (length src) in take n src @ drop n dst)"

section \<open>uuidFromGoBuildId\<close>

text \<open>
  \<open>notsha256.Sum256\<close> is declared in another package (\<open>cmd/internal/notsha256\<close>); it
  is the parameter \<open>Sum256\<close> here. Its Go result type is \<open>[32]byte\<close>; the theorems
  below ask for that length where the digest is used.
\<close>

definition uuidFromGoBuildId :: "(byte list \<Rightarrow> byte list) \<Rightarrow> string \<Rightarrow> byte list option" where
  "uuidFromGoBuildId Sum256 buildID =
     (if buildID = '''' then Some (make_bytes 16)
      else do {
        let hashedBuildID = Sum256 (bytes_of_string buildID);
        rv \<leftarrow> slice_to hashedBuildID 16;
        rv \<leftarrow> index_assign rv 6 (\<lambda>b. b AND 0x0f);
        rv \<leftarrow> index_assign rv 6 (\<lambda>b. b OR 0x30);
        rv \<leftarrow> index_assign rv 8 (\<lambda>b. b AND 0x3f);
        rv \<leftarrow> index_assign rv 8 (\<lambda>b. b OR 0xc0);
        Some rv
      })"

section \<open>Byte order and files\<close>

datatype ByteOrder = LittleEndian | BigEndian

text \<open>
  Modelled from the spec: the decoding and encoding of a 4-byte field (\<open>Uint32\<close> and
  \<open>PutUint32\<close> of \<open>encoding/binary\<close>, reached through \<open>binary.Read\<close> and
  \<open>binary.Write\<close>) are outside the file; section 6 says that every multi-byte integer
  field is decoded and encoded in the byte order that the image header declares.
  \<open>Uint32\<close> is only applied to a list of four bytes.
\<close>

definition Uint32 :: "ByteOrder \<Rightarrow> byte list \<Rightarrow> uint32" where
  "Uint32 order b =
     (case order of
        LittleEndian \<Rightarrow>
          ucast (b ! 0) OR push_bit 8 (ucast (b ! 1)) OR push_bit 16 (ucast (b ! 2))
            OR push_bit 24 (ucast (b ! 3))
      | BigEndian \<Rightarrow>
          ucast (b ! 3) OR push_bit 8 (ucast (b ! 2)) OR push_bit 16 (ucast (b ! 1))
            OR push_bit 24 (ucast (b ! 0)))"

definition PutUint32 :: "ByteOrder \<Rightarrow> uint32 \<Rightarrow> byte list" where
  "PutUint32 order v =
     (case order of
        LittleEndian \<Rightarrow>
          [ucast v, ucast (drop_bit 8 v), ucast (drop_bit 16 v), ucast (drop_bit 24 v)]
      | BigEndian \<Rightarrow>
          [ucast (drop_bit 24 v), ucast (drop_bit 16 v), ucast (drop_bit 8 v), ucast v])"

text \<open>
  A file is its contents. Modelled from the spec: a read of \<open>n\<close> bytes at \<open>pos\<close>
  fails when it would cross the end of the file, and a write is an overwrite in place that
  fails when its target region is not inside the file (section 4.2: no truncation or growth
  is ever performed).
\<close>

type_synonym contents = "byte list"

definition read_at :: "contents \<Rightarrow> nat \<Rightarrow> nat \<Rightarrow> byte list option" where
  "read_at f pos n = (if pos + n \<le> length f then Some (take n (drop pos f)) else None)"

definition write_at :: "contents \<Rightarrow> nat \<Rightarrow> byte list \<Rightarrow> contents option" where
  "write_at f pos b =
     (if pos + length b \<le> length f then Some (take pos f @ b @ drop (pos + length b) f)
      else None)"

section \<open>loadCmdReader\<close>

datatype error = IOError | TruncatedRecord | OutOfBounds | Panic

text \<open>
  The command header (tag and total size, 8 bytes) and the UUID command (the header and a
  16-byte payload right after it, 24 bytes), as section 6 lays them out.
\<close>

record loadCmd =
  Cmd :: uint32
  Len :: uint32

record uuidCmd = loadCmd +
  Uuid :: "byte list"

text \<open>
  The reader's fields. Its file handle \<open>f\<close> is the output file, which the functions
  below take and return as contents; the field \<open>next\<close> is \<open>next_off\<close> here. Both
  offsets are \<open>int64\<close> in Go and never negative; a header is only read at an offset inside
  the file, so they stay below the file's length plus \<open>2 ^ 32\<close>.
\<close>

record loadCmdReader =
  offset :: nat
  next_off :: nat
  order :: ByteOrder

text \<open>
  Modelled from the spec: the methods \<open>Next\<close>, \<open>ReadAt\<close> and \<open>WriteAt\<close> of
  \<open>loadCmdReader\<close> are declared in another file of package \<open>ld\<close>. Section 4.2:
  \<open>next()\<close> reads a command header at the stream's current offset in the configured byte
  order, advances the cursor by that header's declared size and returns the header; it fails
  if fewer bytes remain than the header's fixed size. \<open>readAt\<close> reads \<open>sizeof(T)\<close> bytes at
  the last record's start plus the relative offset, without advancing the cursor, and fails
  if the read would cross the file's end. \<open>writeAt\<close> is the symmetric write. \<open>T\<close> is
  \<open>uuidCmd\<close> at the only call site of each.
\<close>

definition Next :: "loadCmdReader \<Rightarrow> contents \<Rightarrow> error + (loadCmd \<times> loadCmdReader)" where
  "Next r f =
     (case read_at f (next_off r) 8 of
        None \<Rightarrow> Inl TruncatedRecord
      | Some b \<Rightarrow>
          let cmd = \<lparr>Cmd = Uint32 (order r) (take 4 b), Len = Uint32 (order r) (drop 4 b)\<rparr>
          in Inr (cmd, r\<lparr>offset := next_off r, next_off := next_off r + unat (Len cmd)\<rparr>))"

definition ReadAt :: "loadCmdReader \<Rightarrow> contents \<Rightarrow> nat \<Rightarrow> error + uuidCmd" where
  "ReadAt r f rel =
     (case read_at f (offset r + rel) 24 of
        None \<Rightarrow> Inl OutOfBounds
      | Some b \<Rightarrow>
          Inr \<lparr>Cmd = Uint32 (order r) (take 4 b),
               Len = Uint32 (order r) (take 4 (drop 4 b)),
               Uuid = drop 8 b\<rparr>)"

definition WriteAt :: "loadCmdReader \<Rightarrow> contents \<Rightarrow> nat \<Rightarrow> uuidCmd \<Rightarrow> error + contents" where
  "WriteAt r f rel u =
     (case write_at f (offset r + rel)
             (PutUint32 (order r) (Cmd u) @ PutUint32 (order r) (Len u) @ Uuid u) of
        None \<Rightarrow> Inl OutOfBounds
      | Some f' \<Rightarrow> Inr f')"

section \<open>machoRewriteUuid\<close>

text \<open>
  The declarations that the function uses from outside the file: the hash, the size of
  \<open>macho.FileHeader\<close> and the two constants \<open>macho.Magic64\<close> and \<open>LC_UUID\<close>.
  Every theorem holds for any value of them.
\<close>

record decls =
  Sum256 :: "byte list \<Rightarrow> byte list"
  sizeof_FileHeader :: nat
  Magic64 :: uint32
  LC_UUID :: uint32

text \<open>The fields of \<open>exem\<close> that the function reads.\<close>

record macho_File =
  Magic :: uint32
  Ncmd :: uint32
  ByteOrder :: ByteOrder

text \<open>
  What the three calls into the operating system return: \<open>os.OpenFile\<close>, \<open>io.Copy\<close>
  (with the number of bytes that reached the output file when it fails) and \<open>outf.Seek\<close>.
\<close>

record os_calls =
  OpenFile_err :: "error option"
  Copy_err :: "error option"
  Copy_written :: nat
  Seek_err :: "error option"

text \<open>
  Lines 69 to 73: the offset of the load commands. \<open>unsafe.Sizeof(exem.Magic)\<close> is 4,
  \<open>Magic\<close> being a \<open>uint32\<close>.
\<close>

definition cmdOffset :: "decls \<Rightarrow> macho_File \<Rightarrow> nat" where
  "cmdOffset X exem =
     (let cmdOffset = sizeof_FileHeader X;
          is64bit = (Magic exem = Magic64 X)
      in if is64bit then cmdOffset + 4 else cmdOffset)"

text \<open>
  Lines 83 to 99: the loop, with the number of iterations left as its first argument. It
  returns the error (if any) and the contents of the output file.
\<close>

fun machoRewriteUuid_loop ::
  "decls \<Rightarrow> string \<Rightarrow> nat \<Rightarrow> loadCmdReader \<Rightarrow> contents \<Rightarrow> error option \<times> contents" where
  "machoRewriteUuid_loop X flagBuildid 0 reader outf = (None, outf)"
| "machoRewriteUuid_loop X flagBuildid (Suc n) reader outf =
     (case Next reader outf of
        Inl err \<Rightarrow> (Some err, outf)
      | Inr (cmd, reader') \<Rightarrow>
          if Cmd cmd = LC_UUID X then
            (case ReadAt reader' outf 0 of
               Inl err \<Rightarrow> (Some err, outf)
             | Inr u \<Rightarrow>
                 (case uuidFromGoBuildId (Sum256 X) flagBuildid of
                    None \<Rightarrow> (Some Panic, outf)
                  | Some uuid \<Rightarrow>
                      (case WriteAt reader' outf 0 (u\<lparr>Uuid := copy_bytes (Uuid u) uuid\<rparr>) of
                         Inl err \<Rightarrow> (Some err, outf)
                       | Inr outf' \<Rightarrow> (None, outf'))))
          else machoRewriteUuid_loop X flagBuildid n reader' outf)"

text \<open>
  The function returns its error and leaves the output file behind: \<open>None\<close> when it was
  not opened, its contents otherwise. \<open>exef\<close> is the contents of the source file.
\<close>

definition machoRewriteUuid ::
  "decls \<Rightarrow> os_calls \<Rightarrow> string \<Rightarrow> contents \<Rightarrow> macho_File \<Rightarrow> error option \<times> contents option" where
  "machoRewriteUuid X os flagBuildid exef exem =
     (case OpenFile_err os of
        Some err \<Rightarrow> (Some err, None)
      | None \<Rightarrow>
          (case Copy_err os of
             Some err \<Rightarrow> (Some err, Some (take (Copy_written os) exef))
           | None \<Rightarrow>
               (case Seek_err os of
                  Some err \<Rightarrow> (Some err, Some exef)
                | None \<Rightarrow>
                    let reader = \<lparr>offset = 0, next_off = cmdOffset X exem,
                                  order = ByteOrder exem\<rparr>;
                        (err, outf) =
                          machoRewriteUuid_loop X flagBuildid (unat (Ncmd exem)) reader exef
                    in (err, Some outf))))"

section \<open>The command stream of an image\<close>

text \<open>
  Section 3 of the specification: the command stream holds records laid out back to back,
  and a record's boundary is only found by reading the header of the one before it.
  \<open>walk tag ord f n pos\<close> follows at most \<open>n\<close> records of the image \<open>f\<close> from offset
  \<open>pos\<close> and says where the first record tagged \<open>tag\<close> starts, that none of the \<open>n\<close>
  records has the tag, or that the image ends inside a header.
\<close>

datatype walk_result = Found nat | Exhausted | Truncated

fun walk :: "uint32 \<Rightarrow> ByteOrder \<Rightarrow> contents \<Rightarrow> nat \<Rightarrow> nat \<Rightarrow> walk_result" where
  "walk tag ord f 0 pos = Exhausted"
| "walk tag ord f (Suc n) pos =
     (if length f < pos + 8 then Truncated
      else if Uint32 ord (take 4 (drop pos f)) = tag then Found pos
      else walk tag ord f n (pos + unat (Uint32 ord (take 4 (drop (pos + 4) f)))))"

text \<open>
  \<open>patched f p uuid\<close> is the image \<open>f\<close> with the 16 bytes that follow the 8-byte header
  at offset \<open>p\<close> replaced by \<open>uuid\<close>.
\<close>

definition patched :: "contents \<Rightarrow> nat \<Rightarrow> byte list \<Rightarrow> contents" where
  "patched f p uuid = take (p + 8) f @ uuid @ drop (p + 24) f"

section \<open>Concrete inputs\<close>

text \<open>
  A stand-in for the hash with the type of \<open>Sum256\<close> (32 bytes for every input), and the
  values that \<open>debug/macho\<close> gives the three declarations.
\<close>

definition toy_Sum256 :: "byte list \<Rightarrow> byte list" where
  "toy_Sum256 b = map (\<lambda>i. of_nat (17 * (i + length b) + 5)) [0..<32]"

definition X0 :: decls where
  "X0 = \<lparr>Sum256 = toy_Sum256, sizeof_FileHeader = 28, Magic64 = 0xfeedfacf, LC_UUID = 0x1b\<rparr>"

text \<open>The three calls into the operating system succeed.\<close>

definition os_ok :: os_calls where
  "os_ok = \<lparr>OpenFile_err = None, Copy_err = None, Copy_written = 0, Seek_err = None\<rparr>"

text \<open>
  A 64-bit little-endian image of 78 bytes: a 32-byte header, a 12-byte segment command at
  offset 32, an 8-byte command at offset 44, the UUID command at offset 52 with a payload of
  zeros, and two more bytes.
\<close>

definition img64 :: contents where
  "img64 =
     [0xcf, 0xfa, 0xed, 0xfe, 7, 0, 0, 1, 3, 0, 0, 0, 2, 0, 0, 0,
      3, 0, 0, 0, 44, 0, 0, 0, 0, 0, 0, 0, 0, 0, 0, 0,
      0x19, 0, 0, 0, 12, 0, 0, 0, 1, 2, 3, 4,
      0x02, 0, 0, 0, 8, 0, 0, 0,
      0x1b, 0, 0, 0, 24, 0, 0, 0,
      0, 0, 0, 0, 0, 0, 0, 0, 0, 0, 0, 0, 0, 0, 0, 0,
      0xde, 0xad]"

definition exem64 :: macho_File where
  "exem64 = \<lparr>Magic = 0xfeedfacf, Ncmd = 3, ByteOrder = LittleEndian\<rparr>"

text \<open>
  A 32-bit big-endian image of 76 bytes with two UUID commands, at offsets 28 and 52.
\<close>

definition img32 :: contents where
  "img32 =
     [0xfe, 0xed, 0xfa, 0xce, 0, 0, 0, 18, 0, 0, 0, 0, 0, 0, 0, 2,
      0, 0, 0, 2, 0, 0, 0, 48, 0, 0, 0, 0,
      0, 0, 0, 0x1b, 0, 0, 0, 24,
      1, 1, 1, 1, 1, 1, 1, 1, 1, 1, 1, 1, 1, 1, 1, 1,
      0, 0, 0, 0x1b, 0, 0, 0, 24,
      2, 2, 2, 2, 2, 2, 2, 2, 2, 2, 2, 2, 2, 2, 2, 2]"

definition exem32 :: macho_File where
  "exem32 = \<lparr>Magic = 0xfeedface, Ncmd = 2, ByteOrder = BigEndian\<rparr>"

text \<open>A 64-bit little-endian image of 52 bytes with two commands, neither a UUID command.\<close>

definition img_plain :: contents where
  "img_plain =
     [0xcf, 0xfa, 0xed, 0xfe, 7, 0, 0, 1, 3, 0, 0, 0, 2, 0, 0, 0,
      2, 0, 0, 0, 20, 0, 0, 0, 0, 0, 0, 0, 0, 0, 0, 0,
      0x19, 0, 0, 0, 12, 0, 0, 0, 1, 2, 3, 4,
      0x02, 0, 0, 0, 8, 0, 0, 0]"

definition exem_plain :: macho_File where
  "exem_plain = \<lparr>Magic = 0xfeedfacf, Ncmd = 2, ByteOrder = LittleEndian\<rparr>"

text \<open>
  A 32-bit big-endian image of 60 bytes with two UUID-tagged records: the first, at offset
  28, declares a size of 8 bytes, so the second starts at offset 36, inside the 24 bytes of
  a UUID command at offset 28. \<open>out_overlap\<close> is what the function leaves of it for the
  build id \<open>abc123\<close>.
\<close>

definition img_overlap :: contents where
  "img_overlap =
     [0xfe, 0xed, 0xfa, 0xce, 0, 0, 0, 18, 0, 0, 0, 0, 0, 0, 0, 2,
      0, 0, 0, 2, 0, 0, 0, 32, 0, 0, 0, 0,
      0, 0, 0, 0x1b, 0, 0, 0, 8,
      0, 0, 0, 0x1b, 0, 0, 0, 24,
      2, 2, 2, 2, 2, 2, 2, 2, 2, 2, 2, 2, 2, 2, 2, 2]"

definition exem_overlap :: macho_File where
  "exem_overlap = \<lparr>Magic = 0xfeedface, Ncmd = 2, ByteOrder = BigEndian\<rparr>"

definition out_overlap :: contents where
  "out_overlap =
     [0xfe, 0xed, 0xfa, 0xce, 0, 0, 0, 18, 0, 0, 0, 0, 0, 0, 0, 2,
      0, 0, 0, 2, 0, 0, 0, 32, 0, 0, 0, 0,
      0, 0, 0, 0x1b, 0, 0, 0, 8,
      107, 124, 141, 158, 175, 192, 49, 226,
      243, 4, 21, 38, 55, 72, 89, 106,
      2, 2, 2, 2, 2, 2, 2, 2]"

section \<open>Properties of uuidFromGoBuildId\<close>

text \<open>The value returned for a non-empty build id whose digest has at least 16 bytes.\<close>

lemma uuidFromGoBuildId_nonempty:
  assumes "buildID \<noteq> ''''" and "16 \<le> length (H (bytes_of_string buildID))"
  shows "uuidFromGoBuildId H buildID =
     Some ((take 16 (H (bytes_of_string buildID)))
       [6 := (take 16 (H (bytes_of_string buildID)) ! 6 AND 0x0f) OR 0x30,
        8 := (take 16 (H (bytes_of_string buildID)) ! 8 AND 0x3f) OR 0xc0])"
  using assms
  by (simp add: uuidFromGoBuildId_def slice_to_def index_assign_def Let_def)

text \<open>It returns 16 bytes, without a panic, for the empty build id and for a 32-byte digest.\<close>

lemma uuidFromGoBuildId_Some:
  assumes "buildID = '''' \<or> length (H (bytes_of_string buildID)) = 32"
  shows "\<exists>rv. uuidFromGoBuildId H buildID = Some rv \<and> length rv = 16"
proof (cases "buildID = ''''")
  case True
  then show ?thesis by (simp add: uuidFromGoBuildId_def make_bytes_def)
next
  case False
  with assms show ?thesis by (simp add: uuidFromGoBuildId_nonempty)
qed

lemma length_toy_Sum256: "length (toy_Sum256 b) = 32"
  by (simp add: toy_Sum256_def)

text \<open>
  C3: \<open>uuidFromGoBuildId\<close> applied to the empty string returns exactly sixteen zero
  bytes, whatever the hash is.
\<close>

theorem uuidFromGoBuildId_empty:
  "uuidFromGoBuildId H '''' = Some [0, 0, 0, 0, 0, 0, 0, 0, 0, 0, 0, 0, 0, 0, 0, 0]"
  by (simp add: uuidFromGoBuildId_def make_bytes_def numeral_eq_Suc)

text \<open>
  C4: for every non-empty build id, byte 6 of the result has its high nibble equal to
  \<open>0x3\<close>. The hypothesis on the digest is the Go type \<open>[32]byte\<close> of \<open>Sum256\<close>.
\<close>

theorem uuidFromGoBuildId_version_nibble:
  assumes "buildID \<noteq> ''''" and "length (H (bytes_of_string buildID)) = 32"
  shows "\<exists>rv. uuidFromGoBuildId H buildID = Some rv \<and> drop_bit 4 (rv ! 6) = 3"
  using assms by (simp add: uuidFromGoBuildId_nonempty)

theorem uuidFromGoBuildId_version_nibble_witness:
  "\<exists>rv. uuidFromGoBuildId toy_Sum256 ''abc123'' = Some rv \<and> drop_bit 4 (rv ! 6) = 3"
  using uuidFromGoBuildId_version_nibble [of "''abc123''" toy_Sum256]
  by (simp add: length_toy_Sum256)

text \<open>
  C2: for every non-empty build id, the top two bits of byte 8 of the result are \<open>0b11\<close>
  (the value 3), not the \<open>0b10\<close> of the RFC 4122 variant: line 48 sets both bits with
  \<open>0xc0\<close>.
\<close>

theorem uuidFromGoBuildId_variant_bits:
  assumes "buildID \<noteq> ''''" and "length (H (bytes_of_string buildID)) = 32"
  shows "\<exists>rv. uuidFromGoBuildId H buildID = Some rv \<and> drop_bit 6 (rv ! 8) = 3"
  using assms by (simp add: uuidFromGoBuildId_nonempty)

theorem uuidFromGoBuildId_variant_bits_witness:
  "\<exists>rv. uuidFromGoBuildId toy_Sum256 ''a'' = Some rv \<and> drop_bit 6 (rv ! 8) = 3"
  using uuidFromGoBuildId_variant_bits [of "''a''" toy_Sum256]
  by (simp add: length_toy_Sum256)

text \<open>
  C10: for every input string, empty or not, \<open>uuidFromGoBuildId\<close> returns a slice of
  exactly 16 bytes (and does not panic).
\<close>

theorem uuidFromGoBuildId_length:
  assumes "length (H (bytes_of_string buildID)) = 32"
  shows "\<exists>rv. uuidFromGoBuildId H buildID = Some rv \<and> length rv = 16"
proof (cases "buildID = ''''")
  case True
  then show ?thesis by (simp add: uuidFromGoBuildId_def make_bytes_def)
next
  case False
  with assms show ?thesis by (simp add: uuidFromGoBuildId_nonempty)
qed

theorem uuidFromGoBuildId_length_witness:
  "(\<exists>rv. uuidFromGoBuildId toy_Sum256 ''abc123'' = Some rv \<and> length rv = 16)
   \<and> (\<exists>rv. uuidFromGoBuildId toy_Sum256 '''' = Some rv \<and> length rv = 16)"
  using uuidFromGoBuildId_length [of toy_Sum256 "''abc123''"]
    uuidFromGoBuildId_length [of toy_Sum256 "''''"]
  by (simp add: length_toy_Sum256)

section \<open>Decoding and encoding a 4-byte field\<close>

text \<open>
  Each of the four bytes comes back out of the word that \<open>Uint32\<close> builds from them, so
  writing a decoded field back gives the bytes that were read.
\<close>

lemma ucast_word_of_bytes:
  fixes a b c d :: byte
  defines "w \<equiv> (ucast a :: uint32) OR push_bit 8 (ucast b) OR push_bit 16 (ucast c)
                 OR push_bit 24 (ucast d)"
  shows "ucast w = a"
    and "ucast (drop_bit 8 w) = b"
    and "ucast (drop_bit 16 w) = c"
    and "ucast (drop_bit 24 w) = d"
  unfolding w_def
  by (rule bit_word_eqI; auto simp add: bit_simps dest: bit_imp_le_length)+

lemma four_bytes: "length b = 4 \<Longrightarrow> \<exists>b0 b1 b2 b3. b = [b0, b1, b2, b3]"
  by (simp add: length_Suc_conv numeral_eq_Suc) blast

lemma PutUint32_Uint32:
  assumes "length b = 4"
  shows "PutUint32 ord (Uint32 ord b) = b"
proof -
  from assms obtain b0 b1 b2 b3 where b: "b = [b0, b1, b2, b3]"
    using four_bytes by blast
  show ?thesis
    by (cases ord) (simp_all add: b PutUint32_def Uint32_def ucast_word_of_bytes del: drop_bit_or)
qed

section \<open>The reader and the loop\<close>

text \<open>
  What the three methods return when the bytes they touch are inside the file, and when
  they are not.
\<close>

lemma Next_in_range:
  assumes "next_off r + 8 \<le> length f"
  shows "Next r f =
     Inr (\<lparr>Cmd = Uint32 (order r) (take 4 (drop (next_off r) f)),
           Len = Uint32 (order r) (take 4 (drop (next_off r + 4) f))\<rparr>,
          r\<lparr>offset := next_off r,
            next_off := next_off r + unat (Uint32 (order r) (take 4 (drop (next_off r + 4) f)))\<rparr>)"
  using assms by (simp add: Next_def read_at_def Let_def drop_take add.commute)

lemma Next_truncated:
  assumes "length f < next_off r + 8"
  shows "Next r f = Inl TruncatedRecord"
  using assms by (simp add: Next_def read_at_def)

lemma ReadAt_in_range:
  assumes "offset r + 24 \<le> length f"
  shows "ReadAt r f 0 =
     Inr \<lparr>Cmd = Uint32 (order r) (take 4 (drop (offset r) f)),
          Len = Uint32 (order r) (take 4 (drop (offset r + 4) f)),
          Uuid = take 16 (drop (offset r + 8) f)\<rparr>"
  using assms by (simp add: ReadAt_def read_at_def drop_take add.commute)

lemma ReadAt_out_of_range:
  assumes "length f < offset r + 24"
  shows "ReadAt r f 0 = Inl OutOfBounds"
  using assms by (simp add: ReadAt_def read_at_def)

lemma copy_bytes_same_length:
  "length src = length dst \<Longrightarrow> copy_bytes dst src = src"
  by (simp add: copy_bytes_def)

lemma take_header:
  "take p f @ take 4 (drop p f) @ take 4 (drop (p + 4) f) = take (p + 8) f"
proof -
  have "take (p + 8) f = take p f @ take 8 (drop p f)"
    by (simp add: take_add)
  also have "take 8 (drop p f) = take 4 (drop p f) @ take 4 (drop 4 (drop p f))"
    using take_add [of 4 4 "drop p f"] by simp
  finally show ?thesis by (simp add: add.commute)
qed

text \<open>
  Writing back the command that was read at the reader's offset, with a new 16-byte UUID
  field, changes the 16 bytes behind the header and nothing else.
\<close>

lemma WriteAt_patched:
  assumes "offset r + 24 \<le> length f" and "length uuid = 16"
  shows "WriteAt r f 0
           \<lparr>Cmd = Uint32 (order r) (take 4 (drop (offset r) f)),
            Len = Uint32 (order r) (take 4 (drop (offset r + 4) f)),
            Uuid = uuid\<rparr> =
         Inr (take (offset r + 8) f @ uuid @ drop (offset r + 24) f)"
proof -
  have c: "PutUint32 (order r) (Uint32 (order r) (take 4 (drop (offset r) f))) =
        take 4 (drop (offset r) f)"
    using assms by (intro PutUint32_Uint32) simp
  have l: "PutUint32 (order r) (Uint32 (order r) (take 4 (drop (offset r + 4) f))) =
        take 4 (drop (offset r + 4) f)"
    using assms by (intro PutUint32_Uint32) simp
  have "take (offset r) f @ (take 4 (drop (offset r) f) @ take 4 (drop (offset r + 4) f) @ uuid)
          @ drop (offset r + 24) f
        = take (offset r + 8) f @ uuid @ drop (offset r + 24) f"
    using take_header [of "offset r" f] by (metis append.assoc)
  with assms show ?thesis
    by (simp add: WriteAt_def write_at_def c l)
qed

text \<open>
  The loop against \<open>walk\<close>, by induction on the number of iterations left with the
  reader generalised: it ends without an error and without a write when no record has the
  tag, with \<open>TruncatedRecord\<close> when the image ends inside a header, and with the first
  tagged record patched when that record is inside the file.
\<close>

lemma loop_exhausted:
  "walk (LC_UUID X) (order r) f n (next_off r) = Exhausted \<Longrightarrow>
   machoRewriteUuid_loop X b n r f = (None, f)"
proof (induction n arbitrary: r)
  case 0
  then show ?case by simp
next
  case (Suc n)
  from Suc.prems have inr: "next_off r + 8 \<le> length f"
    by (simp split: if_splits)
  from Suc.prems inr have tag: "Uint32 (order r) (take 4 (drop (next_off r) f)) \<noteq> LC_UUID X"
    by (auto split: if_splits)
  let ?r' = "r\<lparr>offset := next_off r,
            next_off := next_off r + unat (Uint32 (order r) (take 4 (drop (next_off r + 4) f)))\<rparr>"
  from Suc.prems inr tag have "walk (LC_UUID X) (order ?r') f n (next_off ?r') = Exhausted"
    by simp
  then have "machoRewriteUuid_loop X b n ?r' f = (None, f)"
    by (rule Suc.IH)
  with inr tag show ?case
    by (simp add: Next_in_range)
qed

lemma loop_truncated:
  "walk (LC_UUID X) (order r) f n (next_off r) = Truncated \<Longrightarrow>
   machoRewriteUuid_loop X b n r f = (Some TruncatedRecord, f)"
proof (induction n arbitrary: r)
  case 0
  then show ?case by simp
next
  case (Suc n)
  show ?case
  proof (cases "length f < next_off r + 8")
    case True
    then show ?thesis by (simp add: Next_truncated)
  next
    case False
    then have inr: "next_off r + 8 \<le> length f" by simp
    from Suc.prems inr have tag: "Uint32 (order r) (take 4 (drop (next_off r) f)) \<noteq> LC_UUID X"
      by (auto split: if_splits)
    let ?r' = "r\<lparr>offset := next_off r,
            next_off := next_off r + unat (Uint32 (order r) (take 4 (drop (next_off r + 4) f)))\<rparr>"
    from Suc.prems inr tag have "walk (LC_UUID X) (order ?r') f n (next_off ?r') = Truncated"
      by simp
    then have "machoRewriteUuid_loop X b n ?r' f = (Some TruncatedRecord, f)"
      by (rule Suc.IH)
    with inr tag show ?thesis
      by (simp add: Next_in_range)
  qed
qed

lemma loop_found:
  assumes "walk (LC_UUID X) (order r) f n (next_off r) = Found p"
    and "p + 24 \<le> length f"
    and "uuidFromGoBuildId (Sum256 X) b = Some uuid" and "length uuid = 16"
  shows "machoRewriteUuid_loop X b n r f = (None, patched f p uuid)"
  using assms(1)
proof (induction n arbitrary: r)
  case 0
  then show ?case by simp
next
  case (Suc n)
  from Suc.prems have inr: "next_off r + 8 \<le> length f"
    by (simp split: if_splits)
  let ?r' = "r\<lparr>offset := next_off r,
            next_off := next_off r + unat (Uint32 (order r) (take 4 (drop (next_off r + 4) f)))\<rparr>"
  show ?case
  proof (cases "Uint32 (order r) (take 4 (drop (next_off r) f)) = LC_UUID X")
    case True
    with Suc.prems inr have p: "p = next_off r" by simp
    have rd: "offset ?r' + 24 \<le> length f"
      using assms(2) p by simp
    have cp: "copy_bytes (take 16 (drop (next_off r + 8) f)) uuid = uuid"
      using assms(2,4) p by (intro copy_bytes_same_length) simp
    have "WriteAt ?r' f 0
           \<lparr>Cmd = Uint32 (order ?r') (take 4 (drop (offset ?r') f)),
            Len = Uint32 (order ?r') (take 4 (drop (offset ?r' + 4) f)),
            Uuid = uuid\<rparr> =
         Inr (take (offset ?r' + 8) f @ uuid @ drop (offset ?r' + 24) f)"
      using rd assms(4) by (rule WriteAt_patched)
    with True inr rd cp assms(3) show ?thesis
      by (simp add: Next_in_range ReadAt_in_range patched_def p)
  next
    case False
    with Suc.prems inr have "walk (LC_UUID X) (order ?r') f n (next_off ?r') = Found p"
      by simp
    then have "machoRewriteUuid_loop X b n ?r' f = (None, patched f p uuid)"
      by (rule Suc.IH)
    with inr False show ?thesis
      by (simp add: Next_in_range)
  qed
qed

text \<open>A record that \<open>walk\<close> finds starts at or after the offset the walk started from.\<close>

lemma walk_Found_bounds:
  "walk tag ord f n pos = Found p \<Longrightarrow> pos \<le> p \<and> p + 8 \<le> length f"
proof (induction n arbitrary: pos)
  case 0
  then show ?case by simp
next
  case (Suc n)
  then show ?case
    by (fastforce split: if_splits)
qed

text \<open>Length and bytes of a patched image.\<close>

lemma length_patched:
  "p + 24 \<le> length f \<Longrightarrow> length uuid = 16 \<Longrightarrow> length (patched f p uuid) = length f"
  by (simp add: patched_def)

lemma nth_patched:
  assumes "p + 24 \<le> length f" and "length uuid = 16" and "i < p + 8 \<or> p + 24 \<le> i"
  shows "patched f p uuid ! i = f ! i"
proof (cases "i < p + 8")
  case True
  with assms(1) show ?thesis by (simp add: patched_def nth_append)
next
  case False
  with assms have i: "p + 24 \<le> i" by simp
  then have "patched f p uuid ! i = (uuid @ drop (p + 24) f) ! (i - (p + 8))"
    using assms(1) by (simp add: patched_def nth_append)
  also have "\<dots> = drop (p + 24) f ! (i - (p + 8) - 16)"
  proof -
    from i assms(2) have "\<not> i - (p + 8) < length uuid" by simp
    then show ?thesis using assms(2) by (simp add: nth_append)
  qed
  also have "\<dots> = f ! i"
    using i assms(1) by simp
  finally show ?thesis .
qed

lemma drop_patched:
  assumes "p + 24 \<le> length f" and "length uuid = 16" and "p + 24 \<le> q"
  shows "drop q (patched f p uuid) = drop q f"
  using assms by (simp add: patched_def)

lemma payload_patched:
  assumes "p + 24 \<le> length f" and "length uuid = 16"
  shows "take 16 (drop (p + 8) (patched f p uuid)) = uuid"
  using assms by (simp add: patched_def)

text \<open>A tagged record that the file ends in is not written: \<open>ReadAt\<close> fails first.\<close>

lemma loop_found_short:
  assumes "walk (LC_UUID X) (order r) f n (next_off r) = Found p"
    and "length f < p + 24"
  shows "machoRewriteUuid_loop X b n r f = (Some OutOfBounds, f)"
  using assms(1)
proof (induction n arbitrary: r)
  case 0
  then show ?case by simp
next
  case (Suc n)
  from Suc.prems have inr: "next_off r + 8 \<le> length f"
    by (simp split: if_splits)
  let ?r' = "r\<lparr>offset := next_off r,
            next_off := next_off r + unat (Uint32 (order r) (take 4 (drop (next_off r + 4) f)))\<rparr>"
  show ?case
  proof (cases "Uint32 (order r) (take 4 (drop (next_off r) f)) = LC_UUID X")
    case True
    with Suc.prems inr have p: "p = next_off r" by simp
    have "length f < offset ?r' + 24"
      using assms(2) p by simp
    then have "ReadAt ?r' f 0 = Inl OutOfBounds"
      by (rule ReadAt_out_of_range)
    with True inr show ?thesis
      by (simp add: Next_in_range)
  next
    case False
    with Suc.prems inr have "walk (LC_UUID X) (order ?r') f n (next_off ?r') = Found p"
      by simp
    then have "machoRewriteUuid_loop X b n ?r' f = (Some OutOfBounds, f)"
      by (rule Suc.IH)
    with inr False show ?thesis
      by (simp add: Next_in_range)
  qed
qed

text \<open>When the three operating system calls succeed, the function is its loop.\<close>

lemma machoRewriteUuid_no_fault:
  assumes "OpenFile_err os = None" and "Copy_err os = None" and "Seek_err os = None"
  shows "machoRewriteUuid X os b exef exem =
     (case machoRewriteUuid_loop X b (unat (Ncmd exem))
             \<lparr>offset = 0, next_off = cmdOffset X exem, order = ByteOrder exem\<rparr> exef of
        (err, outf) \<Rightarrow> (err, Some outf))"
  using assms by (simp add: machoRewriteUuid_def)

lemma machoRewriteUuid_found:
  assumes "OpenFile_err os = None" and "Copy_err os = None" and "Seek_err os = None"
    and "walk (LC_UUID X) (ByteOrder exem) exef (unat (Ncmd exem)) (cmdOffset X exem) = Found p"
    and "p + 24 \<le> length exef"
    and "uuidFromGoBuildId (Sum256 X) b = Some uuid" and "length uuid = 16"
  shows "machoRewriteUuid X os b exef exem = (None, Some (patched exef p uuid))"
proof -
  let ?r = "\<lparr>offset = 0, next_off = cmdOffset X exem, order = ByteOrder exem\<rparr>"
  have "walk (LC_UUID X) (order ?r) exef (unat (Ncmd exem)) (next_off ?r) = Found p"
    using assms(4) by simp
  then have "machoRewriteUuid_loop X b (unat (Ncmd exem)) ?r exef = (None, patched exef p uuid)"
    using assms(5,6,7) by (rule loop_found)
  then show ?thesis
    using assms(1,2,3) by (simp add: machoRewriteUuid_no_fault)
qed

section \<open>The concrete images\<close>

text \<open>The walks over the three images, by evaluation.\<close>

lemma os_ok_simps:
  "OpenFile_err os_ok = None" "Copy_err os_ok = None" "Seek_err os_ok = None"
  by (simp_all add: os_ok_def)

lemma length_Sum256_X0: "length (Sum256 X0 b) = 32"
  by (simp add: X0_def length_toy_Sum256)

lemma walk_img64:
  "walk (LC_UUID X0) (ByteOrder exem64) img64 (unat (Ncmd exem64)) (cmdOffset X0 exem64) = Found 52"
  by code_simp

lemma walk_img32:
  "walk (LC_UUID X0) (ByteOrder exem32) img32 (unat (Ncmd exem32)) (cmdOffset X0 exem32) = Found 28"
  by code_simp

lemma walk_img_plain:
  "walk (LC_UUID X0) (ByteOrder exem_plain) img_plain (unat (Ncmd exem_plain))
     (cmdOffset X0 exem_plain) = Exhausted"
  by code_simp

lemma length_img32: "length img32 = 76"
  by (simp add: img32_def)

section \<open>Properties of machoRewriteUuid\<close>

text \<open>
  C5: the offset of the command stream is the size of the fixed header, plus one 4-byte word
  exactly when the parsed header's magic is \<open>Magic64\<close>, and the reader starts with its
  cursor \<open>next\<close> at that offset: the function is the loop run from there.
\<close>

theorem machoRewriteUuid_cmdOffset:
  assumes "OpenFile_err os = None" and "Copy_err os = None" and "Seek_err os = None"
  shows "cmdOffset X exem = sizeof_FileHeader X + (if Magic exem = Magic64 X then 4 else 0)
     \<and> machoRewriteUuid X os flagBuildid exef exem =
         (case machoRewriteUuid_loop X flagBuildid (unat (Ncmd exem))
                 \<lparr>offset = 0,
                  next_off = sizeof_FileHeader X + (if Magic exem = Magic64 X then 4 else 0),
                  order = ByteOrder exem\<rparr> exef of
            (err, outf) \<Rightarrow> (err, Some outf))"
proof -
  have c: "cmdOffset X exem = sizeof_FileHeader X + (if Magic exem = Magic64 X then 4 else 0)"
    by (simp add: cmdOffset_def)
  from assms show ?thesis
    unfolding machoRewriteUuid_no_fault [OF assms] c by simp
qed

theorem machoRewriteUuid_cmdOffset_witness:
  "cmdOffset X0 exem64 = 32 \<and> cmdOffset X0 exem32 = 28
   \<and> machoRewriteUuid X0 os_ok ''abc123'' img64 exem64 =
       (case machoRewriteUuid_loop X0 ''abc123'' 3
               \<lparr>offset = 0, next_off = 32, order = LittleEndian\<rparr> img64 of
          (err, outf) \<Rightarrow> (err, Some outf))"
  using machoRewriteUuid_cmdOffset [OF os_ok_simps, of X0 exem64 "''abc123''" img64]
    machoRewriteUuid_cmdOffset [OF os_ok_simps, of X0 exem32 "''abc123''" img32]
  by (simp add: X0_def exem64_def exem32_def)

text \<open>
  C7: if the scan reads \<open>Ncmd\<close> records and none has the UUID tag (with \<open>Ncmd = 0\<close>,
  \<open>walk\<close> is \<open>Exhausted\<close> at once), the function returns no error and the output file is
  byte for byte the source file.
\<close>

theorem machoRewriteUuid_no_uuid:
  assumes "OpenFile_err os = None" and "Copy_err os = None" and "Seek_err os = None"
    and "walk (LC_UUID X) (ByteOrder exem) exef (unat (Ncmd exem)) (cmdOffset X exem) = Exhausted"
  shows "machoRewriteUuid X os flagBuildid exef exem = (None, Some exef)"
proof -
  let ?r = "\<lparr>offset = 0, next_off = cmdOffset X exem, order = ByteOrder exem\<rparr>"
  have "walk (LC_UUID X) (order ?r) exef (unat (Ncmd exem)) (next_off ?r) = Exhausted"
    using assms(4) by simp
  then have "machoRewriteUuid_loop X flagBuildid (unat (Ncmd exem)) ?r exef = (None, exef)"
    by (rule loop_exhausted)
  with assms(1-3) show ?thesis
    by (simp add: machoRewriteUuid_no_fault)
qed

theorem machoRewriteUuid_no_uuid_witness:
  "walk (LC_UUID X0) (ByteOrder exem_plain) img_plain (unat (Ncmd exem_plain))
     (cmdOffset X0 exem_plain) = Exhausted
   \<and> machoRewriteUuid X0 os_ok ''abc123'' img_plain exem_plain = (None, Some img_plain)
   \<and> machoRewriteUuid X0 os_ok ''abc123'' img64 (exem64\<lparr>Ncmd := 0\<rparr>) = (None, Some img64)"
proof -
  have z: "walk (LC_UUID X0) (ByteOrder (exem64\<lparr>Ncmd := 0\<rparr>)) img64
       (unat (Ncmd (exem64\<lparr>Ncmd := 0\<rparr>))) (cmdOffset X0 (exem64\<lparr>Ncmd := 0\<rparr>)) = Exhausted"
    by simp
  show ?thesis
    using machoRewriteUuid_no_uuid [OF os_ok_simps walk_img_plain, of "''abc123''"]
      machoRewriteUuid_no_uuid [OF os_ok_simps z, of "''abc123''"] walk_img_plain
    by simp
qed

text \<open>
  C1: for a source image whose first \<open>Ncmd\<close> records hold a UUID-tagged record, at offset
  \<open>p\<close>, the output file has the length of the source file and the same byte at every
  index outside the 16-byte payload window from \<open>p + 8\<close> to \<open>p + 24\<close>; the call succeeds
  when the record lies inside the file.
\<close>

theorem machoRewriteUuid_changes_only_uuid:
  assumes "OpenFile_err os = None" and "Copy_err os = None" and "Seek_err os = None"
    and "walk (LC_UUID X) (ByteOrder exem) exef (unat (Ncmd exem)) (cmdOffset X exem) = Found p"
    and "length (Sum256 X (bytes_of_string flagBuildid)) = 32"
  shows "\<exists>err outf. machoRewriteUuid X os flagBuildid exef exem = (err, Some outf)
           \<and> length outf = length exef
           \<and> (\<forall>i<length exef. i < p + 8 \<or> p + 24 \<le> i \<longrightarrow> outf ! i = exef ! i)
           \<and> (p + 24 \<le> length exef \<longrightarrow> err = None)"
proof (cases "p + 24 \<le> length exef")
  case True
  from assms(5) obtain uuid
    where u: "uuidFromGoBuildId (Sum256 X) flagBuildid = Some uuid" "length uuid = 16"
    using uuidFromGoBuildId_Some [of flagBuildid "Sum256 X"] by blast
  have "machoRewriteUuid X os flagBuildid exef exem = (None, Some (patched exef p uuid))"
    using assms(1-4) True u by (rule machoRewriteUuid_found)
  moreover have "length (patched exef p uuid) = length exef"
    using True u(2) by (rule length_patched)
  moreover have "\<forall>i<length exef. i < p + 8 \<or> p + 24 \<le> i \<longrightarrow> patched exef p uuid ! i = exef ! i"
    using True u(2) by (simp add: nth_patched)
  ultimately show ?thesis by simp
next
  case False
  let ?r = "\<lparr>offset = 0, next_off = cmdOffset X exem, order = ByteOrder exem\<rparr>"
  have "walk (LC_UUID X) (order ?r) exef (unat (Ncmd exem)) (next_off ?r) = Found p"
    using assms(4) by simp
  moreover from False have "length exef < p + 24" by simp
  ultimately have "machoRewriteUuid_loop X flagBuildid (unat (Ncmd exem)) ?r exef
      = (Some OutOfBounds, exef)"
    by (rule loop_found_short)
  with assms(1-3) False show ?thesis
    by (simp add: machoRewriteUuid_no_fault)
qed

theorem machoRewriteUuid_changes_only_uuid_witness:
  "walk (LC_UUID X0) (ByteOrder exem64) img64 (unat (Ncmd exem64)) (cmdOffset X0 exem64) = Found 52
   \<and> (\<exists>err outf. machoRewriteUuid X0 os_ok ''abc123'' img64 exem64 = (err, Some outf)
           \<and> length outf = length img64
           \<and> (\<forall>i<length img64. i < 52 + 8 \<or> 52 + 24 \<le> i \<longrightarrow> outf ! i = img64 ! i)
           \<and> (52 + 24 \<le> length img64 \<longrightarrow> err = None))"
  using machoRewriteUuid_changes_only_uuid [OF os_ok_simps walk_img64 length_Sum256_X0]
    walk_img64
  by simp

text \<open>
  C6, as the claim states it, fails on an image whose first UUID-tagged record declares
  fewer than 24 bytes: in \<open>img_overlap\<close> the walk finds the first tagged record at offset 28
  and, continued behind its declared 8 bytes, a second tagged record at offset 36; the
  function succeeds, and the header of that second record is overwritten.
\<close>

theorem machoRewriteUuid_second_record_counterexample:
  "walk (LC_UUID X0) (ByteOrder exem_overlap) img_overlap (unat (Ncmd exem_overlap))
       (cmdOffset X0 exem_overlap) = Found 28
   \<and> unat (Uint32 (ByteOrder exem_overlap) (take 4 (drop (28 + 4) img_overlap))) = 8
   \<and> walk (LC_UUID X0) (ByteOrder exem_overlap) img_overlap 1 (28 + 8) = Found 36
   \<and> machoRewriteUuid X0 os_ok ''abc123'' img_overlap exem_overlap = (None, Some out_overlap)
   \<and> take 8 (drop 36 img_overlap) = [0, 0, 0, 0x1b, 0, 0, 0, 24]
   \<and> take 8 (drop 36 out_overlap) = [107, 124, 141, 158, 175, 192, 49, 226]"
  by code_simp

text \<open>
  C6, amended: the first UUID-tagged record of the scan, at offset \<open>p\<close>, is written back at
  the same offset with its 8 header bytes unchanged and its UUID field replaced by the
  identifier derived from the build id, and the scan stops there. The write covers the 24
  bytes of a UUID command whatever size the record declares, so everything from offset
  \<open>p + 24\<close> on is unmodified; a second UUID-tagged record, found by a walk continued behind
  the first record, is unmodified when the first record declares at least 24 bytes.
\<close>

theorem machoRewriteUuid_first_match:
  assumes "OpenFile_err os = None" and "Copy_err os = None" and "Seek_err os = None"
    and "walk (LC_UUID X) (ByteOrder exem) exef (unat (Ncmd exem)) (cmdOffset X exem) = Found p"
    and "p + 24 \<le> length exef"
    and "length (Sum256 X (bytes_of_string flagBuildid)) = 32"
  shows "\<exists>uuid outf. uuidFromGoBuildId (Sum256 X) flagBuildid = Some uuid
           \<and> machoRewriteUuid X os flagBuildid exef exem = (None, Some outf)
           \<and> outf = take (p + 8) exef @ uuid @ drop (p + 24) exef
           \<and> (\<forall>q. p + 24 \<le> q \<longrightarrow> drop q outf = drop q exef)
           \<and> (\<forall>m q. 24 \<le> unat (Uint32 (ByteOrder exem) (take 4 (drop (p + 4) exef)))
                 \<and> walk (LC_UUID X) (ByteOrder exem) exef m
                      (p + unat (Uint32 (ByteOrder exem) (take 4 (drop (p + 4) exef)))) = Found q
                 \<longrightarrow> drop q outf = drop q exef)"
proof -
  from assms(6) obtain uuid
    where u: "uuidFromGoBuildId (Sum256 X) flagBuildid = Some uuid" "length uuid = 16"
    using uuidFromGoBuildId_Some [of flagBuildid "Sum256 X"] by blast
  have m: "machoRewriteUuid X os flagBuildid exef exem = (None, Some (patched exef p uuid))"
    using assms(1-5) u by (rule machoRewriteUuid_found)
  have t: "drop q (take (p + 8) exef @ uuid @ drop (p + 24) exef) = drop q exef"
    if "p + 24 \<le> q" for q
    using assms(5) u(2) that by (rule drop_patched [unfolded patched_def])
  have d: "drop q (take (p + 8) exef @ uuid @ drop (p + 24) exef) = drop q exef"
    if "24 \<le> unat (Uint32 (ByteOrder exem) (take 4 (drop (p + 4) exef)))"
      and "walk (LC_UUID X) (ByteOrder exem) exef m
             (p + unat (Uint32 (ByteOrder exem) (take 4 (drop (p + 4) exef)))) = Found q"
    for m q
  proof -
    from that(2) have "p + unat (Uint32 (ByteOrder exem) (take 4 (drop (p + 4) exef))) \<le> q"
      using walk_Found_bounds by blast
    with that(1) have "p + 24 \<le> q" by simp
    then show ?thesis by (rule t)
  qed
  from u(1) m [unfolded patched_def] t d show ?thesis
    by blast
qed

theorem machoRewriteUuid_first_match_witness:
  "walk (LC_UUID X0) (ByteOrder exem32) img32 (unat (Ncmd exem32)) (cmdOffset X0 exem32) = Found 28
   \<and> walk (LC_UUID X0) (ByteOrder exem32) img32 1 (28 + 24) = Found 52
   \<and> (\<exists>uuid outf. uuidFromGoBuildId (Sum256 X0) ''abc123'' = Some uuid
         \<and> machoRewriteUuid X0 os_ok ''abc123'' img32 exem32 = (None, Some outf)
         \<and> outf = take 36 img32 @ uuid @ drop 52 img32
         \<and> drop 52 outf = drop 52 img32)"
proof -
  have w2: "walk (LC_UUID X0) (ByteOrder exem32) img32 1 (28 + 24) = Found 52"
    by code_simp
  have l: "28 + 24 \<le> length img32"
    by (simp add: length_img32)
  from machoRewriteUuid_first_match
    [OF os_ok_simps walk_img32 l length_Sum256_X0, of "''abc123''"]
  obtain uuid outf where u: "uuidFromGoBuildId (Sum256 X0) ''abc123'' = Some uuid"
    and m: "machoRewriteUuid X0 os_ok ''abc123'' img32 exem32 = (None, Some outf)"
    and o: "outf = take (28 + 8) img32 @ uuid @ drop (28 + 24) img32"
    and t: "\<forall>q. 28 + 24 \<le> q \<longrightarrow> drop q outf = drop q img32"
    by blast
  from t have "drop 52 outf = drop 52 img32"
    by simp
  with u m o walk_img32 w2 show ?thesis
    by (simp del: walk.simps)
qed

text \<open>
  C9: with the empty build id and a UUID-tagged record in the image, the overwrite still
  happens: the 16 payload bytes of the record are zero in the output file, whatever they
  were in the source.
\<close>

theorem machoRewriteUuid_empty_buildid:
  assumes "OpenFile_err os = None" and "Copy_err os = None" and "Seek_err os = None"
    and "walk (LC_UUID X) (ByteOrder exem) exef (unat (Ncmd exem)) (cmdOffset X exem) = Found p"
    and "p + 24 \<le> length exef"
  shows "\<exists>outf. machoRewriteUuid X os '''' exef exem = (None, Some outf)
           \<and> take 16 (drop (p + 8) outf) = replicate 16 0"
proof -
  have u: "uuidFromGoBuildId (Sum256 X) '''' = Some (replicate 16 0)"
    by (simp add: uuidFromGoBuildId_def make_bytes_def)
  have l: "length (replicate 16 (0::byte)) = 16" by simp
  have "machoRewriteUuid X os '''' exef exem = (None, Some (patched exef p (replicate 16 0)))"
    using assms u l by (rule machoRewriteUuid_found)
  moreover have "take 16 (drop (p + 8) (patched exef p (replicate 16 0))) = replicate 16 0"
    using assms(5) l by (rule payload_patched)
  ultimately show ?thesis by simp
qed

theorem machoRewriteUuid_empty_buildid_witness:
  "\<exists>outf. machoRewriteUuid X0 os_ok '''' img32 exem32 = (None, Some outf)
      \<and> take 16 (drop (28 + 8) img32) = replicate 16 1
      \<and> take 16 (drop (28 + 8) outf) = replicate 16 0"
proof -
  have l: "28 + 24 \<le> length img32"
    by (simp add: length_img32)
  have orig: "take 16 (drop (28 + 8) img32) = replicate 16 1"
    by code_simp
  with machoRewriteUuid_empty_buildid [OF os_ok_simps walk_img32 l] show ?thesis
    by simp
qed

text \<open>
  X1: when the image ends inside the header of one of the first \<open>Ncmd\<close> records, before any
  UUID-tagged record, the function returns the reader's error and writes nothing: the output
  file is the copy of the source.
\<close>

theorem machoRewriteUuid_truncated:
  assumes "OpenFile_err os = None" and "Copy_err os = None" and "Seek_err os = None"
    and "walk (LC_UUID X) (ByteOrder exem) exef (unat (Ncmd exem)) (cmdOffset X exem) = Truncated"
  shows "machoRewriteUuid X os flagBuildid exef exem = (Some TruncatedRecord, Some exef)"
proof -
  let ?r = "\<lparr>offset = 0, next_off = cmdOffset X exem, order = ByteOrder exem\<rparr>"
  have "walk (LC_UUID X) (order ?r) exef (unat (Ncmd exem)) (next_off ?r) = Truncated"
    using assms(4) by simp
  then have "machoRewriteUuid_loop X flagBuildid (unat (Ncmd exem)) ?r exef
      = (Some TruncatedRecord, exef)"
    by (rule loop_truncated)
  with assms(1-3) show ?thesis
    by (simp add: machoRewriteUuid_no_fault)
qed

theorem machoRewriteUuid_truncated_witness:
  "machoRewriteUuid X0 os_ok ''abc123'' (take 56 img64) exem64
     = (Some TruncatedRecord, Some (take 56 img64))"
proof -
  have "walk (LC_UUID X0) (ByteOrder exem64) (take 56 img64) (unat (Ncmd exem64))
      (cmdOffset X0 exem64) = Truncated"
    by code_simp
  with os_ok_simps show ?thesis
    by (rule machoRewriteUuid_truncated)
qed

end
